theory Spec2Isabelle
  imports Main
begin

section \<open>Strings and the regular expressions of ux-improvements.js\<close>

text \<open>
  A JavaScript string is modelled as a \<^typ>\<open>string\<close>. The character classes the
  script uses are ASCII classes in JavaScript as well: \<^verbatim>\<open>\d\<close> is \<^verbatim>\<open>[0-9]\<close> and
  \<^verbatim>\<open>\w\<close> is \<^verbatim>\<open>[A-Za-z0-9_]\<close>; every other character is a non-digit and a
  non-word character.
\<close>

definition is_digit :: "char \<Rightarrow> bool" where
  "is_digit c = (c \<in> set ''0123456789'')"

definition is_word_char :: "char \<Rightarrow> bool" where
  "is_word_char c =
     (c \<in> set ''abcdefghijklmnopqrstuvwxyzABCDEFGHIJKLMNOPQRSTUVWXYZ0123456789_'')"

text \<open>\<^verbatim>\<open>s.replace(/\D/g, '')\<close>: every non-digit is deleted.\<close>

definition strip_non_digits :: "string \<Rightarrow> string" where
  "strip_non_digits s = filter is_digit s"

text \<open>
  The lookahead \<^verbatim>\<open>(?=(\d{3})+(?!\d))\<close> at the front of the rest of the string:
  one group of three digits, followed by further groups or by a position where
  no digit follows.
\<close>

fun lookahead_groups :: "string \<Rightarrow> bool" where
  "lookahead_groups (a # b # c # rest) =
     (is_digit a \<and> is_digit b \<and> is_digit c \<and>
      (lookahead_groups rest \<or> (case rest of [] \<Rightarrow> True | d # _ \<Rightarrow> \<not> is_digit d)))"
| "lookahead_groups _ = False"

text \<open>
  \<^verbatim>\<open>\B\<close> between the previous character (none at the start of the string) and
  the next one: both are word characters or neither is.
\<close>

definition non_boundary :: "char option \<Rightarrow> char \<Rightarrow> bool" where
  "non_boundary prev c =
     ((case prev of None \<Rightarrow> False | Some p \<Rightarrow> is_word_char p) = is_word_char c)"

text \<open>
  \<^verbatim>\<open>s.replace(/\B(?=(\d{3})+(?!\d))/g, ' ')\<close>: the pattern is of width zero, so the
  global replacement tests every position of the original string and puts a
  space at each position that matches. The position after the last character
  never matches, since the lookahead needs three digits.
\<close>

fun insert_spaces :: "char option \<Rightarrow> string \<Rightarrow> string" where
  "insert_spaces prev [] = []"
| "insert_spaces prev (c # cs) =
     (if non_boundary prev c \<and> lookahead_groups (c # cs)
      then CHR '' '' # c # insert_spaces (Some c) cs
      else c # insert_spaces (Some c) cs)"

definition formatNumberWithSpaces :: "string \<Rightarrow> string" where
  "formatNumberWithSpaces v = insert_spaces None v"

text \<open>
  The grouping in the specification's words, to compare the function with: a
  space every three digits from the right. The last three characters form a
  group, and what stands before them is grouped in the same way.
\<close>

function group_from_right :: "string \<Rightarrow> string" where
  "group_from_right s =
     (if length s \<le> 3 then s
      else group_from_right (take (length s - 3) s) @ CHR '' '' # drop (length s - 3) s)"
  by pat_completeness auto
termination
  by (relation "measure length") auto


section \<open>Form fields and their error display (ux-improvements.js)\<close>

text \<open>
  The texts the script shows. The source writes them in Russian; the
  constructors name them in English.
\<close>

datatype message =
    NoText                      \<comment> \<open>the empty string\<close>
  | EnterExactly11Digits        \<comment> \<open>the text of \<^verbatim>\<open>validateTicket\<close>\<close>
  | SpecifyDepartment           \<comment> \<open>the text for the department field\<close>
  | SpecifyIssueNumber          \<comment> \<open>the text for the issue field\<close>
  | EnterItemDescription        \<comment> \<open>the text for an item's description\<close>
  | EnterEvaluation             \<comment> \<open>the text for an item's evaluation\<close>
  | OtherText string            \<comment> \<open>any text the page itself put there\<close>

text \<open>
  An element the script treats as an error display: whether its class list has
  \<^verbatim>\<open>error-message\<close> and \<^verbatim>\<open>show\<close>, and its text content.
\<close>

record error_div =
  has_error_message :: bool
  textContent :: message
  shown :: bool

text \<open>
  A form control, with what the script reads and writes of it:
  \<^item> \<open>localName\<close>, for \<^verbatim>\<open>target.matches('input, select, textarea')\<close>;
  \<^item> \<open>fvalue\<close>, its \<^verbatim>\<open>value\<close>;
  \<^item> \<open>constraints\<close>, the browser's constraint validation of the control as a
    function of its value, so that \<^verbatim>\<open>field.validity.valid\<close> is
    \<open>constraints f (fvalue f)\<close>;
  \<^item> \<open>input_error\<close>, whether its class list has \<^verbatim>\<open>input-error\<close>;
  \<^item> \<open>nextElementSibling\<close>, \<open>None\<close> for \<^verbatim>\<open>null\<close>;
  \<^item> \<open>container_error\<close>, what
    \<^verbatim>\<open>(field.closest('.input-wrapper') || field.parentElement).querySelector('.error-message')\<close>
    finds when the next sibling is not an error display (\<open>None\<close> when there is
    no parent or no such element). \<^verbatim>\<open>clearFieldError\<close> reads it in that case
    only, and there it is an element other than the next sibling.
\<close>

record field =
  localName :: string
  fvalue :: string
  constraints :: "string \<Rightarrow> bool"
  input_error :: bool
  nextElementSibling :: "error_div option"
  container_error :: "error_div option"

definition validity_valid :: "field \<Rightarrow> bool" where
  "validity_valid f = constraints f (fvalue f)"

text \<open>
  \<^verbatim>\<open>validateField(field, errorMessage)\<close>: the result and the field as changed.
  The verdict is the browser's \<^verbatim>\<open>field.validity.valid\<close>.
\<close>

definition validateField :: "field \<Rightarrow> message \<Rightarrow> bool \<times> field" where
  "validateField f errorMessage =
     (let errorDiv = nextElementSibling f in
      if \<not> validity_valid f then
        (False,
         f\<lparr>input_error := True,
           nextElementSibling :=
             (case errorDiv of
                None \<Rightarrow> None
              | Some d \<Rightarrow>
                  if has_error_message d
                  then Some (d\<lparr>textContent := errorMessage, shown := True\<rparr>)
                  else Some d)\<rparr>)
      else
        (True,
         f\<lparr>input_error := False,
           nextElementSibling :=
             (case errorDiv of
                None \<Rightarrow> None
              | Some d \<Rightarrow>
                  if has_error_message d then Some (d\<lparr>shown := False\<rparr>) else Some d)\<rparr>))"

text \<open>\<^verbatim>\<open>clearFieldError(field)\<close>.\<close>

definition clearFieldError :: "field \<Rightarrow> field" where
  "clearFieldError f =
     (let f1 = f\<lparr>input_error := False\<rparr> in
      case nextElementSibling f1 of
        Some d \<Rightarrow>
          if has_error_message d
          then f1\<lparr>nextElementSibling := Some (d\<lparr>shown := False\<rparr>)\<rparr>
          else (case container_error f1 of
                  None \<Rightarrow> f1
                | Some e \<Rightarrow>
                    if has_error_message e
                    then f1\<lparr>container_error := Some (e\<lparr>shown := False\<rparr>)\<rparr>
                    else f1)
      | None \<Rightarrow>
          (case container_error f1 of
             None \<Rightarrow> f1
           | Some e \<Rightarrow>
               if has_error_message e
               then f1\<lparr>container_error := Some (e\<lparr>shown := False\<rparr>)\<rparr>
               else f1))"

text \<open>\<^verbatim>\<open>validateTicket(input)\<close>.\<close>

definition validateTicket :: "field \<Rightarrow> bool \<times> field" where
  "validateTicket input =
     (let v = strip_non_digits (fvalue input) in
      if length v \<noteq> 11 then validateField input EnterExactly11Digits
      else validateField input NoText)"

text \<open>
  \<^verbatim>\<open>formatEvaluation(input)\<close>: the empty string is the only falsy string.
\<close>

definition formatEvaluation :: "field \<Rightarrow> field" where
  "formatEvaluation input =
     (let v = strip_non_digits (fvalue input) in
      if v \<noteq> [] then input\<lparr>fvalue := formatNumberWithSpaces v\<rparr> else input)"

text \<open>
  The listeners for \<^verbatim>\<open>input\<close> and \<^verbatim>\<open>focus\<close> on the document (capture phase).
  The target of an event is an HTML element or something else (the document, an
  SVG element); the listener returns the target as it leaves it.
\<close>

datatype event_target = HTMLElement field | OtherTarget

definition matches_form_control :: "field \<Rightarrow> bool" where
  "matches_form_control f = (localName f \<in> {''input'', ''select'', ''textarea''})"

definition input_listener :: "event_target \<Rightarrow> event_target" where
  "input_listener target =
     (case target of
        OtherTarget \<Rightarrow> OtherTarget
      | HTMLElement f \<Rightarrow>
          if matches_form_control f then HTMLElement (clearFieldError f)
          else HTMLElement f)"

definition focus_listener :: "event_target \<Rightarrow> event_target" where
  "focus_listener target =
     (case target of
        OtherTarget \<Rightarrow> OtherTarget
      | HTMLElement f \<Rightarrow>
          if matches_form_control f then HTMLElement (clearFieldError f)
          else HTMLElement f)"

text \<open>
  What the user sees of a field's error state: the highlight on the field, or
  the error display next to it (the only element \<^verbatim>\<open>validateField\<close> ever shows).
\<close>

definition error_displayed :: "field \<Rightarrow> bool" where
  "error_displayed f =
     (input_error f \<or>
      (case nextElementSibling f of
         None \<Rightarrow> False
       | Some d \<Rightarrow> has_error_message d \<and> shown d))"


text \<open>
  The initialisation on \<^verbatim>\<open>DOMContentLoaded\<close> sets
  \<^verbatim>\<open>pattern="[0-9]{11}"\<close> on the ticket input. From then on the browser's
  constraint validation of that control also requires that the value, unless
  it is empty, is eleven digits and nothing else (a pattern must match the
  whole value, and an empty value is exempt from it).
\<close>

definition set_ticket_pattern :: "field \<Rightarrow> field" where
  "set_ticket_pattern f =
     f\<lparr>constraints :=
         (\<lambda>v. constraints f v \<and> (v = [] \<or> (length v = 11 \<and> list_all is_digit v)))\<rparr>"


section \<open>The form and its validation before submit\<close>

text \<open>
  Exceptions of the scripts, as values. \<open>TypeError\<close> is what reading a property
  of \<^verbatim>\<open>null\<close>, iterating a value that is not iterable, a failed \<^verbatim>\<open>fetch\<close>
  and a failed \<^verbatim>\<open>cache.addAll\<close> raise; \<open>SyntaxError\<close> is what
  \<^verbatim>\<open>response.json()\<close> raises on a body that is not JSON; \<open>FailedToSendReport\<close>
  is the \<^verbatim>\<open>Error\<close> that \<^verbatim>\<open>sendReport\<close> throws; \<open>OpenFailed\<close> is the
  \<^verbatim>\<open>request.error\<close> that \<^verbatim>\<open>openDB\<close> rejects with.
\<close>

datatype js_error = TypeError | SyntaxError | FailedToSendReport | OpenFailed

text \<open>
  What \<^verbatim>\<open>validateForm\<close> looks up in the document: the elements with the ids
  \<^verbatim>\<open>department\<close>, \<^verbatim>\<open>issue\<close> and \<^verbatim>\<open>ticket\<close> (\<open>None\<close> when
  \<^verbatim>\<open>getElementById\<close> gives \<^verbatim>\<open>null\<close>), and the \<^verbatim>\<open>.item-card\<close> elements in
  document order, each with its first \<^verbatim>\<open>.desc\<close> and \<^verbatim>\<open>.eval\<close> descendant.
\<close>

record item_card =
  desc :: "field option"
  eval_field :: "field option"

record form =
  department :: "field option"
  issue :: "field option"
  ticket :: "field option"
  items :: "item_card list"

text \<open>The elements that \<^verbatim>\<open>validateForm\<close> pushes on \<^verbatim>\<open>errors\<close>.\<close>

datatype field_ref = Department | Issue | Ticket | Desc nat | Eval nat

text \<open>
  The callback of \<^verbatim>\<open>items.forEach\<close>, over the cards from index \<open>idx\<close> on,
  threading \<^verbatim>\<open>isValid\<close> and \<^verbatim>\<open>errors\<close>.
\<close>

fun validate_items ::
  "nat \<Rightarrow> item_card list \<Rightarrow> bool \<times> field_ref list \<Rightarrow>
   js_error + (item_card list \<times> bool \<times> field_ref list)" where
  "validate_items idx [] (isValid, errors) = Inr ([], isValid, errors)"
| "validate_items idx (item # rest) (isValid, errors) =
     (case desc item of
        None \<Rightarrow> Inl TypeError
      | Some d \<Rightarrow>
          (case eval_field item of
             None \<Rightarrow> Inl TypeError
           | Some e \<Rightarrow>
               let (d', isValid1, errors1) =
                     (if fvalue d = []
                      then (snd (validateField d EnterItemDescription), False,
                            errors @ [Desc idx])
                      else (d, isValid, errors));
                   (e', isValid2, errors2) =
                     (if fvalue e = []
                      then (snd (validateField e EnterEvaluation), False,
                            errors1 @ [Eval idx])
                      else (e, isValid1, errors1))
               in (case validate_items (Suc idx) rest (isValid2, errors2) of
                     Inl err \<Rightarrow> Inl err
                   | Inr (rest', isValid3, errors3) \<Rightarrow>
                       Inr (\<lparr>desc = Some d', eval_field = Some e'\<rparr> # rest',
                            isValid3, errors3))))"

text \<open>
  \<^verbatim>\<open>validateForm()\<close>: the result, the element that is scrolled into view and
  focused (if any), and the form as changed; \<open>Inl\<close> when an element is missing.
  The \<^verbatim>\<open>focus\<close> event that \<^verbatim>\<open>errors[0].focus()\<close> raises is not part of this
  function: it goes to \<open>focus_listener\<close>.
\<close>

definition validateForm :: "form \<Rightarrow> js_error + (bool \<times> field_ref option \<times> form)" where
  "validateForm doc =
     (case department doc of
        None \<Rightarrow> Inl TypeError
      | Some dept \<Rightarrow>
     let (dept', isValid1, errors1) =
           (if fvalue dept = []
            then (snd (validateField dept SpecifyDepartment), False, [Department])
            else (dept, True, []))
     in
     (case issue doc of
        None \<Rightarrow> Inl TypeError
      | Some iss \<Rightarrow>
     let (iss', isValid2, errors2) =
           (if fvalue iss = []
            then (snd (validateField iss SpecifyIssueNumber), False, errors1 @ [Issue])
            else (iss, isValid1, errors1))
     in
     (case ticket doc of
        None \<Rightarrow> Inl TypeError
      | Some tick \<Rightarrow>
     let (ticketOk, tick') = validateTicket tick;
         (isValid3, errors3) =
           (if \<not> ticketOk then (False, errors2 @ [Ticket]) else (isValid2, errors2))
     in
     (case validate_items 0 (items doc) (isValid3, errors3) of
        Inl err \<Rightarrow> Inl err
      | Inr (items', isValid, errors) \<Rightarrow>
          Inr (isValid,
               (if \<not> isValid \<and> length errors > 0 then Some (hd errors) else None),
               \<lparr>department = Some dept', issue = Some iss', ticket = Some tick',
                items = items'\<rparr>)))))"

text \<open>
  The reading of the form's validity that is compared with \<open>validateForm\<close>
  below: what each check of the function asks of the element it checks.
\<close>

definition has_value :: "field option \<Rightarrow> bool" where
  "has_value fo = (case fo of None \<Rightarrow> False | Some f \<Rightarrow> fvalue f \<noteq> [])"

definition ticket_passes :: "field option \<Rightarrow> bool" where
  "ticket_passes fo = (case fo of None \<Rightarrow> False | Some f \<Rightarrow> validity_valid f)"

definition item_passes :: "item_card \<Rightarrow> bool" where
  "item_passes item = (has_value (desc item) \<and> has_value (eval_field item))"

definition form_passes :: "form \<Rightarrow> bool" where
  "form_passes doc =
     (has_value (department doc) \<and> has_value (issue doc) \<and> ticket_passes (ticket doc) \<and>
      list_all item_passes (items doc))"

text \<open>
  The fields that fail their check, in the order in which the function checks
  them: department, issue, ticket, then the cards in document order, each with
  its description before its evaluation.
\<close>

fun failing_items :: "nat \<Rightarrow> item_card list \<Rightarrow> field_ref list" where
  "failing_items idx [] = []"
| "failing_items idx (item # rest) =
     (if has_value (desc item) then [] else [Desc idx]) @
     (if has_value (eval_field item) then [] else [Eval idx]) @
     failing_items (Suc idx) rest"

definition failing_fields :: "form \<Rightarrow> field_ref list" where
  "failing_fields doc =
     (if has_value (department doc) then [] else [Department]) @
     (if has_value (issue doc) then [] else [Issue]) @
     (if ticket_passes (ticket doc) then [] else [Ticket]) @
     failing_items 0 (items doc)"

text \<open>
  The reading of the specification: an item's evaluation must also be numeric.
  A numeric text here is a non-empty text of digits and the spaces that
  \<open>formatEvaluation\<close> puts between them.
\<close>

definition is_numeric :: "string \<Rightarrow> bool" where
  "is_numeric s = (strip_non_digits s \<noteq> [] \<and> list_all (\<lambda>c. is_digit c \<or> c = CHR '' '') s)"

definition item_passes_numeric :: "item_card \<Rightarrow> bool" where
  "item_passes_numeric item =
     (has_value (desc item) \<and>
      (case eval_field item of None \<Rightarrow> False | Some e \<Rightarrow> fvalue e \<noteq> [] \<and> is_numeric (fvalue e)))"

definition form_passes_numeric :: "form \<Rightarrow> bool" where
  "form_passes_numeric doc =
     (has_value (department doc) \<and> has_value (issue doc) \<and> ticket_passes (ticket doc) \<and>
      list_all item_passes_numeric (items doc))"


definition elements_present :: "form \<Rightarrow> bool" where
  "elements_present doc =
     (department doc \<noteq> None \<and> issue doc \<noteq> None \<and> ticket doc \<noteq> None \<and>
      list_all (\<lambda>item. desc item \<noteq> None \<and> eval_field item \<noteq> None) (items doc))"

text \<open>
  Concrete elements for the examples: a required text input holding \<open>v\<close>,
  followed by the error display that the initialisation inserts after every
  required control; the ticket input is such a control with the pattern set.
\<close>

definition text_input :: "string \<Rightarrow> field" where
  "text_input v =
     \<lparr>localName = ''input'', fvalue = v, constraints = (\<lambda>w. w \<noteq> []),
      input_error = False,
      nextElementSibling =
        Some \<lparr>has_error_message = True, textContent = NoText, shown = False\<rparr>,
      container_error = None\<rparr>"

definition ticket_input :: "string \<Rightarrow> field" where
  "ticket_input v = set_ticket_pattern (text_input v)"

definition example_form :: "string \<Rightarrow> string \<Rightarrow> form" where
  "example_form description evaluation =
     \<lparr>department = Some (text_input ''Sklad 1''),
      issue = Some (text_input ''42''),
      ticket = Some (ticket_input ''12345678901''),
      items = [\<lparr>desc = Some (text_input description),
                eval_field = Some (text_input evaluation)\<rparr>]\<rparr>"



section \<open>The service worker: requests, responses and the cache storage\<close>

text \<open>
  A JSON value: a report's payload, and what \<^verbatim>\<open>response.json()\<close> gives.
\<close>

datatype json =
    JNull | JBool bool | JNumber int | JString string
  | JArray "json list" | JObject "(string \<times> json) list"

text \<open>
  A request is its method, its URL and, for \<^verbatim>\<open>POST /generate\<close>, the value that
  \<^verbatim>\<open>JSON.stringify(data)\<close> encodes. A response is its status, its body and the
  result of parsing the body as JSON (\<open>None\<close> when the body is not JSON, as for
  an empty body or an HTML page), and whether its \<^verbatim>\<open>Vary\<close> header holds
  \<^verbatim>\<open>*\<close>. \<^verbatim>\<open>response.ok\<close> is a status from 200 to 299.
\<close>

record request =
  http_method :: string
  url :: string
  payload :: "json option"

record response =
  status :: nat
  body :: string
  json_body :: "json option"
  vary_star :: bool

definition response_ok :: "response \<Rightarrow> bool" where
  "response_ok r = (200 \<le> status r \<and> status r \<le> 299)"

definition GET :: "string \<Rightarrow> request" where
  "GET u = \<lparr>http_method = ''GET'', url = u, payload = None\<rparr>"

text \<open>
  The network as one event sees it: \<open>None\<close> when \<^verbatim>\<open>fetch\<close> rejects (no
  connection), which JavaScript reports as a \<^verbatim>\<open>TypeError\<close>.
\<close>

type_synonym network = "request \<Rightarrow> response option"

text \<open>
  A cache holds at most one response for a URL; the cache storage holds the
  named caches in the order of their creation, which is the order in which
  \<^verbatim>\<open>caches.match\<close> searches them and \<^verbatim>\<open>caches.keys\<close> lists them. Only a
  \<^verbatim>\<open>GET\<close> request matches an entry.
\<close>

type_synonym cache = "(string \<times> response) list"

type_synonym cache_storage = "(string \<times> cache) list"

definition cache_match :: "request \<Rightarrow> cache \<Rightarrow> response option" where
  "cache_match req c = (if http_method req = ''GET'' then map_of c (url req) else None)"

definition cache_put :: "string \<Rightarrow> response \<Rightarrow> cache \<Rightarrow> cache" where
  "cache_put u r c = filter (\<lambda>e. fst e \<noteq> u) c @ [(u, r)]"

definition caches_keys :: "cache_storage \<Rightarrow> string list" where
  "caches_keys st = map fst st"

definition caches_open :: "string \<Rightarrow> cache_storage \<Rightarrow> cache_storage" where
  "caches_open name st = (if name \<in> set (caches_keys st) then st else st @ [(name, [])])"

definition caches_delete :: "string \<Rightarrow> cache_storage \<Rightarrow> cache_storage" where
  "caches_delete name st = filter (\<lambda>e. fst e \<noteq> name) st"

definition cache_of :: "string \<Rightarrow> cache_storage \<Rightarrow> cache" where
  "cache_of name st = (case map_of st name of None \<Rightarrow> [] | Some c \<Rightarrow> c)"

definition set_cache :: "string \<Rightarrow> cache \<Rightarrow> cache_storage \<Rightarrow> cache_storage" where
  "set_cache name c st = map (\<lambda>e. if fst e = name then (name, c) else e) st"

fun caches_match :: "request \<Rightarrow> cache_storage \<Rightarrow> response option" where
  "caches_match req [] = None"
| "caches_match req ((name, c) # rest) =
     (case cache_match req c of Some r \<Rightarrow> Some r | None \<Rightarrow> caches_match req rest)"

text \<open>
  \<^verbatim>\<open>cache.addAll(urls)\<close> fetches every URL and stores the responses only if
  every fetch was answered with a response it accepts. It does not accept a
  status that is not ok, the status 206 (partial content), or a \<^verbatim>\<open>Vary\<close>
  header that holds \<^verbatim>\<open>*\<close>. Otherwise it rejects with a \<^verbatim>\<open>TypeError\<close> and
  the cache is as before.
\<close>

definition precache_rejected :: "response \<Rightarrow> bool" where
  "precache_rejected r = (\<not> response_ok r \<or> status r = 206 \<or> vary_star r)"

text \<open>The asset at \<open>u\<close> cannot be precached: no answer, or an answer not accepted.\<close>

definition asset_fails :: "network \<Rightarrow> string \<Rightarrow> bool" where
  "asset_fails net u =
     (case net (GET u) of None \<Rightarrow> True | Some r \<Rightarrow> precache_rejected r)"

fun fetch_all :: "network \<Rightarrow> string list \<Rightarrow> js_error + (string \<times> response) list" where
  "fetch_all net [] = Inr []"
| "fetch_all net (u # us) =
     (case net (GET u) of
        None \<Rightarrow> Inl TypeError
      | Some r \<Rightarrow>
          if precache_rejected r then Inl TypeError
          else (case fetch_all net us of
                  Inl e \<Rightarrow> Inl e
                | Inr rs \<Rightarrow> Inr ((u, r) # rs)))"

definition cache_addAll :: "network \<Rightarrow> string list \<Rightarrow> cache \<Rightarrow> js_error + cache" where
  "cache_addAll net urls c =
     (case fetch_all net urls of
        Inl e \<Rightarrow> Inl e
      | Inr rs \<Rightarrow> Inr (fold (\<lambda>e. cache_put (fst e) (snd e)) rs c))"


section \<open>The service worker: install, activate and fetch\<close>

definition VERSION :: string where
  "VERSION = ''2322''"

text \<open>
  The cache name of the script deployed with version \<open>v\<close>; the script in the
  repository is the one with \<open>v = VERSION\<close>.
\<close>

definition CACHE_NAME :: "string \<Rightarrow> string" where
  "CACHE_NAME v = ''sklad-bot-'' @ v"

text \<open>
  \<^verbatim>\<open>pathname.replace(/service-worker\.js.*$/, '')\<close>: the path is cut at the first
  place where \<^verbatim>\<open>service-worker.js\<close> stands (a URL path holds no line terminator,
  so \<^verbatim>\<open>.*$\<close> matches whatever follows).
\<close>

fun cut_at :: "string \<Rightarrow> string \<Rightarrow> string" where
  "cut_at pat [] = []"
| "cut_at pat (c # cs) =
     (if take (length pat) (c # cs) = pat then [] else c # cut_at pat cs)"

definition swPath :: "string \<Rightarrow> string" where
  "swPath pathname = cut_at ''service-worker.js'' pathname"

definition BASE_PATH :: "string \<Rightarrow> string" where
  "BASE_PATH pathname =
     (if swPath pathname \<noteq> [] \<and> last (swPath pathname) = CHR ''/''
      then swPath pathname else swPath pathname @ ''/'')"

definition urlsToCache :: "string \<Rightarrow> string list" where
  "urlsToCache pathname = [BASE_PATH pathname, BASE_PATH pathname @ ''index.html'']"

text \<open>
  The \<^verbatim>\<open>install\<close> listener of the script with version \<open>v\<close>, served from
  \<open>pathname\<close>: the outcome of the promise given to \<^verbatim>\<open>event.waitUntil\<close> and
  the cache storage afterwards. \<^verbatim>\<open>caches.open\<close> creates the cache when there
  is none of that name.
\<close>

definition install_listener ::
  "string \<Rightarrow> string \<Rightarrow> network \<Rightarrow> cache_storage \<Rightarrow> (js_error + unit) \<times> cache_storage" where
  "install_listener v pathname net st =
     (let st1 = caches_open (CACHE_NAME v) st in
      case cache_addAll net (urlsToCache pathname) (cache_of (CACHE_NAME v) st1) of
        Inl e \<Rightarrow> (Inl e, st1)
      | Inr c \<Rightarrow> (Inr (), set_cache (CACHE_NAME v) c st1))"

text \<open>
  The \<^verbatim>\<open>activate\<close> listener: every name that \<^verbatim>\<open>caches.keys()\<close> lists and that
  is not the script's cache name is deleted.
\<close>

definition activate_listener :: "string \<Rightarrow> cache_storage \<Rightarrow> cache_storage" where
  "activate_listener v st =
     fold (\<lambda>cacheName s. if cacheName \<noteq> CACHE_NAME v then caches_delete cacheName s else s)
       (caches_keys st) st"

text \<open>
  The \<^verbatim>\<open>fetch\<close> listener: what \<^verbatim>\<open>event.respondWith\<close> is given, and the cache
  storage afterwards. The listener calls \<^verbatim>\<open>caches.match\<close> and \<^verbatim>\<open>fetch\<close> and
  nothing that writes.
\<close>

definition fetch_listener ::
  "cache_storage \<Rightarrow> network \<Rightarrow> request \<Rightarrow> (js_error + response) \<times> cache_storage" where
  "fetch_listener st net req =
     ((case caches_match req st of
         Some r \<Rightarrow> Inr r
       | None \<Rightarrow> (case net req of None \<Rightarrow> Inl TypeError | Some r \<Rightarrow> Inr r)),
      st)"

text \<open>
  The life cycle that the browser runs around the listeners. A new version is
  installed first; if the promise given to \<^verbatim>\<open>event.waitUntil\<close> rejects, the new
  worker is discarded and the worker that was active stays. Otherwise, since
  the install listener calls \<^verbatim>\<open>self.skipWaiting()\<close>, the new worker is activated
  at once. \<open>active\<close> is the version of the worker that handles fetches.
\<close>

record worker_state =
  caches :: cache_storage
  active :: "string option"

definition deploy :: "string \<Rightarrow> string \<Rightarrow> network \<Rightarrow> worker_state \<Rightarrow> worker_state" where
  "deploy v pathname net w =
     (case install_listener v pathname net (caches w) of
        (Inl e, st1) \<Rightarrow> w\<lparr>caches := st1\<rparr>
      | (Inr u, st1) \<Rightarrow> \<lparr>caches = activate_listener v st1, active = Some v\<rparr>)"





text \<open>
  Examples: a site that answers every \<^verbatim>\<open>GET\<close> with one page, a site whose
  \<^verbatim>\<open>index.html\<close> is missing, no connection at all, and the worker states after
  version v1 and then version v2 were deployed from \<^verbatim>\<open>/service-worker.js\<close>.
\<close>

definition page :: "string \<Rightarrow> response" where
  "page b = \<lparr>status = 200, body = b, json_body = None, vary_star = False\<rparr>"

definition site :: "string \<Rightarrow> network" where
  "site b req = (if http_method req = ''GET'' then Some (page b) else None)"

definition site_without_index :: "string \<Rightarrow> network" where
  "site_without_index b req =
     (if http_method req = ''GET'' \<and> url req = ''/'' then Some (page b)
      else if http_method req = ''GET'' then Some \<lparr>status = 404, body = [], json_body = None, vary_star = False\<rparr>
      else None)"

definition site_partial_index :: "string \<Rightarrow> network" where
  "site_partial_index b req =
     (if http_method req = ''GET'' \<and> url req = ''/'' then Some (page b)
      else if http_method req = ''GET''
      then Some \<lparr>status = 206, body = b, json_body = None, vary_star = False\<rparr>
      else None)"

definition offline :: network where
  "offline req = None"

definition v1_active :: worker_state where
  "v1_active = deploy ''v1'' ''/service-worker.js'' (site ''one'') \<lparr>caches = [], active = None\<rparr>"

definition v2_active :: worker_state where
  "v2_active = deploy ''v2'' ''/service-worker.js'' (site ''two'') v1_active"

text \<open>
  The worker state after the update from v1 to v2 failed on
  \<^verbatim>\<open>index.html\<close>, and the cache storage of the active v2 after some other
  script of the origin has opened a cache of its own and stored a page in it.
\<close>

definition v2_failed :: worker_state where
  "v2_failed = deploy ''v2'' ''/service-worker.js'' (site_without_index ''two'') v1_active"



section \<open>The service worker: background sync\<close>

text \<open>
  A record of the object store \<^verbatim>\<open>pending\<close> (key path \<^verbatim>\<open>id\<close>), and the store as
  the list of its records in key order.
\<close>

record pending_item =
  item_id :: nat
  item_data :: json

type_synonym object_store = "pending_item list"

text \<open>
  The remote endpoint with whatever state it has: it answers a request with a
  response, or not at all (\<open>None\<close>: the transport failed and \<^verbatim>\<open>fetch\<close> rejects),
  and moves to its next state.
\<close>

type_synonym 'w server = "'w \<Rightarrow> request \<Rightarrow> response option \<times> 'w"

definition generate_request :: "json \<Rightarrow> request" where
  "generate_request data = \<lparr>http_method = ''POST'', url = ''/generate'', payload = Some data\<rparr>"

text \<open>
  \<^verbatim>\<open>sendReport(data)\<close>: \<open>Inl\<close> when the promise rejects. The function returns
  \<^verbatim>\<open>response.json()\<close>, so it also rejects when the body of an ok response is not
  JSON.
\<close>

definition sendReport :: "'w server \<Rightarrow> 'w \<Rightarrow> json \<Rightarrow> (js_error + json) \<times> 'w" where
  "sendReport srv w data =
     (case srv w (generate_request data) of
        (None, w') \<Rightarrow> (Inl TypeError, w')
      | (Some response, w') \<Rightarrow>
          if \<not> response_ok response then (Inl FailedToSendReport, w')
          else (case json_body response of
                  None \<Rightarrow> (Inl SyntaxError, w')
                | Some j \<Rightarrow> (Inr j, w')))"

text \<open>
  The values that \<^verbatim>\<open>syncPendingReports\<close> binds to \<^verbatim>\<open>pending\<close>. The database
  that \<^verbatim>\<open>openDB\<close> resolves with is the browser's own \<^verbatim>\<open>IDBDatabase\<close>
  (\<^verbatim>\<open>request.result\<close> of \<^verbatim>\<open>indexedDB.open\<close>), so \<^verbatim>\<open>store.getAll()\<close> gives an
  \<^verbatim>\<open>IDBRequest\<close>: an object that delivers its result to an \<^verbatim>\<open>onsuccess\<close>
  handler later, as \<^verbatim>\<open>openDB\<close> itself arranges for \<^verbatim>\<open>indexedDB.open\<close>. It has
  no \<^verbatim>\<open>then\<close> method, so \<^verbatim>\<open>await\<close> gives back the request itself, and it is
  not iterable, so \<^verbatim>\<open>for ... of\<close> over it throws a \<^verbatim>\<open>TypeError\<close>.
\<close>

datatype js_value = ItemArray "pending_item list" | IDBRequest "pending_item list"

definition store_getAll :: "object_store \<Rightarrow> js_value" where
  "store_getAll store = IDBRequest store"

definition await :: "js_value \<Rightarrow> js_value" where
  "await v = v"

definition for_of :: "js_value \<Rightarrow> js_error + pending_item list" where
  "for_of v = (case v of ItemArray xs \<Rightarrow> Inr xs | IDBRequest r \<Rightarrow> Inl TypeError)"

definition store_delete :: "nat \<Rightarrow> object_store \<Rightarrow> object_store" where
  "store_delete k store = filter (\<lambda>i. item_id i \<noteq> k) store"

text \<open>
  What the sync touches: the state of the remote endpoint, the database
  (\<open>None\<close> when it cannot be opened), and the delivery attempts made so far,
  each with the key of its record and whether it succeeded (a failed one is
  what \<^verbatim>\<open>console.error\<close> logs).
\<close>

record 'w world =
  server_state :: 'w
  database :: "object_store option"
  attempts :: "(nat \<times> bool) list"

definition openDB :: "'w world \<Rightarrow> js_error + object_store" where
  "openDB wd = (case database wd of None \<Rightarrow> Inl OpenFailed | Some store \<Rightarrow> Inr store)"

text \<open>The body of the loop of \<^verbatim>\<open>syncPendingReports\<close>, over the items left.\<close>

fun sync_loop :: "'w server \<Rightarrow> pending_item list \<Rightarrow> 'w world \<Rightarrow> 'w world" where
  "sync_loop srv [] wd = wd"
| "sync_loop srv (item # rest) wd =
     (case sendReport srv (server_state wd) (item_data item) of
        (Inr j, w') \<Rightarrow>
          sync_loop srv rest
            (wd\<lparr>server_state := w',
                database := map_option (store_delete (item_id item)) (database wd),
                attempts := attempts wd @ [(item_id item, True)]\<rparr>)
      | (Inl error, w') \<Rightarrow>
          sync_loop srv rest
            (wd\<lparr>server_state := w',
                attempts := attempts wd @ [(item_id item, False)]\<rparr>))"

definition syncPendingReports :: "'w server \<Rightarrow> 'w world \<Rightarrow> (js_error + unit) \<times> 'w world" where
  "syncPendingReports srv wd =
     (case openDB wd of
        Inl e \<Rightarrow> (Inl e, wd)
      | Inr store \<Rightarrow>
          let pending = await (store_getAll store) in
          (case for_of pending of
             Inl e \<Rightarrow> (Inl e, wd)
           | Inr entries \<Rightarrow> (Inr (), sync_loop srv entries wd)))"

text \<open>The \<^verbatim>\<open>sync\<close> listener: the promise given to \<^verbatim>\<open>event.waitUntil\<close>.\<close>

definition sync_listener ::
  "string \<Rightarrow> 'w server \<Rightarrow> 'w world \<Rightarrow> (js_error + unit) \<times> 'w world" where
  "sync_listener tag srv wd =
     (if tag = ''sync-reports'' then syncPendingReports srv wd else (Inr (), wd))"

text \<open>
  Examples: an endpoint that counts its requests and fails the second one, an
  endpoint that answers 204 with an empty body, and three queued reports.
\<close>

definition accepted :: response where
  "accepted = \<lparr>status = 200, body = ''{\"ok\":true}'',
                json_body = Some (JObject [(''ok'', JBool True)]), vary_star = False\<rparr>"

definition fails_second :: "nat server" where
  "fails_second n req = (if n = 1 then (None, Suc n) else (Some accepted, Suc n))"

definition no_content :: "unit server" where
  "no_content w req = (Some \<lparr>status = 204, body = [], json_body = None, vary_star = False\<rparr>, w)"

definition three_reports :: object_store where
  "three_reports =
     [\<lparr>item_id = 1, item_data = JString ''first''\<rparr>,
      \<lparr>item_id = 2, item_data = JString ''second''\<rparr>,
      \<lparr>item_id = 3, item_data = JString ''third''\<rparr>]"

definition three_queued :: "nat world" where
  "three_queued = \<lparr>server_state = 0, database = Some three_reports, attempts = []\<rparr>"


section \<open>Properties of the formatting\<close>

lemma space_not_digit: "\<not> is_digit (CHR '' '')"
  by (simp add: is_digit_def)

lemma strip_insert_spaces: "strip_non_digits (insert_spaces prev s) = strip_non_digits s"
  by (induction s arbitrary: prev) (simp_all add: strip_non_digits_def space_not_digit)

lemma strip_digits_only: "list_all is_digit s \<Longrightarrow> strip_non_digits s = s"
  by (induction s) (simp_all add: strip_non_digits_def)

lemma digit_is_word_char: "is_digit c \<Longrightarrow> is_word_char c"
  by (auto simp: is_digit_def is_word_char_def)

lemma lookahead_groups_digits:
  "list_all is_digit s \<Longrightarrow> lookahead_groups s = (s \<noteq> [] \<and> 3 dvd length s)"
proof (induction s rule: lookahead_groups.induct)
  case (1 a b c rest)
  then have r: "lookahead_groups rest = (rest \<noteq> [] \<and> 3 dvd length rest)"
    by simp
  have e: "(case rest of [] \<Rightarrow> True | d # _ \<Rightarrow> \<not> is_digit d) = (rest = [])"
    using "1.prems" by (cases rest) simp_all
  have "lookahead_groups (a # b # c # rest) = (lookahead_groups rest \<or> rest = [])"
    using "1.prems" e by simp
  also have "\<dots> = (3 dvd length rest)"
    using r by auto
  also have "\<dots> = (3 dvd length (a # b # c # rest))"
    by simp presburger
  finally show ?case by simp
qed (simp_all, presburger)

lemma insert_spaces_short: "length s < 3 \<Longrightarrow> insert_spaces p s = s"
proof (induction s arbitrary: p)
  case Nil
  then show ?case by simp
next
  case (Cons c cs)
  then have "\<not> lookahead_groups (c # cs)"
    by (cases cs rule: lookahead_groups.cases) simp_all
  with Cons show ?case by simp
qed

lemma insert_spaces_append_group:
  "list_all is_digit xs \<Longrightarrow> list_all is_digit ys \<Longrightarrow> length ys = 3 \<Longrightarrow> is_word_char p \<Longrightarrow>
   insert_spaces (Some p) (xs @ ys) = insert_spaces (Some p) xs @ CHR '' '' # ys"
proof (induction xs arbitrary: p)
  case Nil
  then obtain a b c where ys: "ys = [a, b, c]"
    by (cases ys rule: lookahead_groups.cases) auto
  with Nil show ?case
    by (simp add: non_boundary_def digit_is_word_char)
next
  case (Cons x xs)
  have d: "list_all is_digit (x # xs @ ys)" "list_all is_digit (x # xs)"
    using Cons.prems by simp_all
  have l: "lookahead_groups (x # xs @ ys) = lookahead_groups (x # xs)"
    using lookahead_groups_digits [OF d(1)] lookahead_groups_digits [OF d(2)] Cons.prems(3)
    by simp presburger
  have w: "is_word_char x"
    using Cons.prems by (simp add: digit_is_word_char)
  from Cons.IH [OF _ Cons.prems(2,3) w] Cons.prems(1)
  have "insert_spaces (Some x) (xs @ ys) = insert_spaces (Some x) xs @ CHR '' '' # ys"
    by simp
  with l show ?case by simp
qed

lemma formatNumberWithSpaces_groups:
  "list_all is_digit s \<Longrightarrow> formatNumberWithSpaces s = group_from_right s"
proof (induction s rule: group_from_right.induct)
  case (1 s)
  show ?case
  proof (cases "length s \<le> 3")
    case True
    have "insert_spaces None s = s"
    proof (cases s)
      case Nil
      then show ?thesis by simp
    next
      case (Cons c cs)
      with True have "insert_spaces (Some c) cs = cs"
        by (simp add: insert_spaces_short)
      moreover have "\<not> non_boundary None c"
        using "1.prems" Cons by (simp add: non_boundary_def digit_is_word_char)
      ultimately show ?thesis using Cons by simp
    qed
    with True show ?thesis
      by (simp add: formatNumberWithSpaces_def)
  next
    case False
    let ?xs = "take (length s - 3) s" and ?ys = "drop (length s - 3) s"
    have s: "s = ?xs @ ?ys" by simp
    have dx: "list_all is_digit ?xs" and dy: "list_all is_digit ?ys"
      using "1.prems" by (auto simp: list_all_iff dest: in_set_takeD in_set_dropD)
    have ly: "length ?ys = 3" using False by simp
    from False obtain x xs' where xs: "?xs = x # xs'"
      by (cases ?xs) auto
    have w: "is_word_char x" and nb: "\<not> non_boundary None x"
      using dx xs by (simp_all add: non_boundary_def digit_is_word_char)
    have dxs': "list_all is_digit xs'" using dx xs by simp
    have "insert_spaces None (?xs @ ?ys) = x # insert_spaces (Some x) (xs' @ ?ys)"
      using xs nb by simp
    also have "\<dots> = x # insert_spaces (Some x) xs' @ CHR '' '' # ?ys"
      using insert_spaces_append_group [OF dxs' dy ly w] by simp
    also have "\<dots> = insert_spaces None ?xs @ CHR '' '' # ?ys"
      using xs nb by simp
    finally have "formatNumberWithSpaces s = formatNumberWithSpaces ?xs @ CHR '' '' # ?ys"
      unfolding formatNumberWithSpaces_def using s by simp
    with "1.IH" [OF False dx] False show ?thesis
      by (subst group_from_right.simps) simp
  qed
qed

text \<open>
  Claim C3. formatNumberWithSpaces turns 15000 into "15 000" and 1000000 into
  "1 000 000"; for every string s made of digits only it puts a space every
  three digits from the right; and for such s, stripping the non-digits from
  the formatted string and formatting again gives the formatted string again.
\<close>

theorem formatNumberWithSpaces_examples_idempotent:
  "formatNumberWithSpaces ''15000'' = ''15 000'' \<and>
   formatNumberWithSpaces ''1000000'' = ''1 000 000'' \<and>
   (list_all is_digit s \<longrightarrow> formatNumberWithSpaces s = group_from_right s) \<and>
   (list_all is_digit s \<longrightarrow>
      formatNumberWithSpaces (strip_non_digits (formatNumberWithSpaces s))
        = formatNumberWithSpaces s)"
proof -
  have a: "formatNumberWithSpaces ''15000'' = ''15 000''"
    by (simp add: formatNumberWithSpaces_def non_boundary_def is_digit_def is_word_char_def)
  have b: "formatNumberWithSpaces ''1000000'' = ''1 000 000''"
    by (simp add: formatNumberWithSpaces_def non_boundary_def is_digit_def is_word_char_def)
  have c: "list_all is_digit s \<longrightarrow>
      formatNumberWithSpaces (strip_non_digits (formatNumberWithSpaces s))
        = formatNumberWithSpaces s"
    by (simp add: formatNumberWithSpaces_def strip_insert_spaces strip_digits_only)
  from a b c formatNumberWithSpaces_groups [of s] show ?thesis by simp
qed

theorem formatNumberWithSpaces_examples_idempotent_witness:
  "list_all is_digit ''1234567'' \<and>
   formatNumberWithSpaces (strip_non_digits (formatNumberWithSpaces ''1234567''))
     = ''1 234 567''"
proof -
  have d: "list_all is_digit ''1234567''"
    by (simp add: is_digit_def)
  have f: "formatNumberWithSpaces ''1234567'' = ''1 234 567''"
    by (simp add: formatNumberWithSpaces_def non_boundary_def is_digit_def is_word_char_def)
  from formatNumberWithSpaces_examples_idempotent [of "''1234567''"] d f
  show ?thesis by simp
qed


section \<open>Properties of the field functions\<close>

text \<open>
  Claim C10. For every field whose value holds no digit, formatEvaluation
  leaves the field as it is: it neither clears the value nor writes a formatted
  one. It reformats only when the value holds a digit, and then the new value
  is the formatted digits.
\<close>

theorem formatEvaluation_needs_a_digit:
  "((\<forall>c \<in> set (fvalue input). \<not> is_digit c) \<longrightarrow> formatEvaluation input = input) \<and>
   ((\<exists>c \<in> set (fvalue input). is_digit c) \<longrightarrow>
      formatEvaluation input =
        input\<lparr>fvalue := formatNumberWithSpaces (strip_non_digits (fvalue input))\<rparr>)"
proof -
  have e: "(strip_non_digits (fvalue input) = []) = (\<forall>c \<in> set (fvalue input). \<not> is_digit c)"
    by (simp add: strip_non_digits_def filter_empty_conv)
  show ?thesis
    using e by (auto simp: formatEvaluation_def Let_def)
qed

theorem formatEvaluation_needs_a_digit_witness:
  "strip_non_digits (fvalue (text_input ''n/a'')) = [] \<and>
   formatEvaluation (text_input ''n/a'') = text_input ''n/a'' \<and>
   (\<exists>c \<in> set (fvalue (text_input ''15000 r'')). is_digit c) \<and>
   formatEvaluation (text_input ''15000 r'') = text_input ''15 000''"
proof -
  have a: "\<forall>c \<in> set (fvalue (text_input ''n/a'')). \<not> is_digit c"
    by (simp add: text_input_def is_digit_def)
  have b: "\<exists>c \<in> set (fvalue (text_input ''15000 r'')). is_digit c"
    by (simp add: text_input_def is_digit_def)
  have c: "formatNumberWithSpaces (strip_non_digits (fvalue (text_input ''15000 r'')))
             = ''15 000''"
    by (simp add: text_input_def strip_non_digits_def formatNumberWithSpaces_def
        non_boundary_def is_digit_def is_word_char_def)
  from formatEvaluation_needs_a_digit [of "text_input ''n/a''"] a
  have a': "formatEvaluation (text_input ''n/a'') = text_input ''n/a''"
    by blast
  from formatEvaluation_needs_a_digit [of "text_input ''15000 r''"] b
  have "formatEvaluation (text_input ''15000 r'') =
          (text_input ''15000 r'')\<lparr>fvalue :=
             formatNumberWithSpaces (strip_non_digits (fvalue (text_input ''15000 r'')))\<rparr>"
    by blast
  then have b': "formatEvaluation (text_input ''15000 r'') = text_input ''15 000''"
    by (simp only: c) (simp add: text_input_def)
  have s: "strip_non_digits (fvalue (text_input ''n/a'')) = []"
    by (simp add: text_input_def strip_non_digits_def is_digit_def)
  from s a' b b' show ?thesis by blast
qed

text \<open>
  Claim C9. For every form control (an input, select or textarea element) and
  every value of it, valid or not, an input event and a focus event on it run
  clearFieldError, after which the control shows no error: the highlight is
  gone and the error display next to it is hidden. The event changes neither
  the value nor its validity and validates nothing; when the value is invalid,
  the error is shown again by the next call of validateField.
\<close>

theorem clearing_events_remove_error_display:
  assumes "matches_form_control f"
  shows "input_listener (HTMLElement f) = HTMLElement (clearFieldError f) \<and>
         focus_listener (HTMLElement f) = HTMLElement (clearFieldError f) \<and>
         \<not> error_displayed (clearFieldError f) \<and>
         fvalue (clearFieldError f) = fvalue f \<and>
         validity_valid (clearFieldError f) = validity_valid f \<and>
         (\<not> validity_valid f \<longrightarrow>
            error_displayed (snd (validateField (clearFieldError f) m)))"
proof -
  have l: "input_listener (HTMLElement f) = HTMLElement (clearFieldError f)"
    "focus_listener (HTMLElement f) = HTMLElement (clearFieldError f)"
    using assms by (simp_all add: input_listener_def focus_listener_def)
  have c: "\<not> error_displayed (clearFieldError f)"
    by (simp add: clearFieldError_def error_displayed_def Let_def split: option.splits)
  have v: "fvalue (clearFieldError f) = fvalue f"
    "constraints (clearFieldError f) = constraints f"
    by (simp_all add: clearFieldError_def Let_def split: option.splits)
  have r: "\<not> validity_valid f \<longrightarrow>
      error_displayed (snd (validateField (clearFieldError f) m))"
    using v by (simp add: validateField_def validity_valid_def error_displayed_def Let_def)
  from l c v r show ?thesis by (simp add: validity_valid_def)
qed

theorem clearing_events_remove_error_display_witness:
  "matches_form_control (snd (validateField (text_input []) SpecifyDepartment)) \<and>
   error_displayed (snd (validateField (text_input []) SpecifyDepartment)) \<and>
   \<not> validity_valid (snd (validateField (text_input []) SpecifyDepartment)) \<and>
   focus_listener (HTMLElement (snd (validateField (text_input []) SpecifyDepartment)))
     = HTMLElement (clearFieldError (snd (validateField (text_input []) SpecifyDepartment))) \<and>
   \<not> error_displayed (clearFieldError (snd (validateField (text_input []) SpecifyDepartment)))"
proof -
  have m: "matches_form_control (snd (validateField (text_input []) SpecifyDepartment))"
    by (simp add: matches_form_control_def validateField_def validity_valid_def
        text_input_def Let_def)
  have e: "error_displayed (snd (validateField (text_input []) SpecifyDepartment))"
    by (simp add: error_displayed_def validateField_def validity_valid_def
        text_input_def Let_def)
  have i: "\<not> validity_valid (snd (validateField (text_input []) SpecifyDepartment))"
    by (simp add: validateField_def validity_valid_def text_input_def Let_def)
  from clearing_events_remove_error_display [OF m] m e i show ?thesis
    by blast
qed

text \<open>
  Claim C2, at the input of the specification's own example. The ticket input
  holds "+7 (911) 234-56-78", which strips to eleven digits. validateTicket
  takes the branch for eleven digits and calls validateField with the empty
  text, and validateField answers with the browser's verdict on the raw value:
  the pattern that the script itself sets rejects it. The result is false, the
  field is highlighted and its error display is shown with an empty text.
\<close>

theorem validateTicket_formatted_number_rejected:
  "length (strip_non_digits ''+7 (911) 234-56-78'') = 11 \<and>
   validateTicket (ticket_input ''+7 (911) 234-56-78'') =
     (False,
      (ticket_input ''+7 (911) 234-56-78'')
        \<lparr>input_error := True,
         nextElementSibling :=
           Some \<lparr>has_error_message = True, textContent = NoText, shown = True\<rparr>\<rparr>)"
proof -
  have n: "length (strip_non_digits ''+7 (911) 234-56-78'') = 11"
    by (simp add: strip_non_digits_def is_digit_def)
  have v: "\<not> validity_valid (ticket_input ''+7 (911) 234-56-78'')"
    by (simp add: validity_valid_def ticket_input_def set_ticket_pattern_def text_input_def)
  have s: "nextElementSibling (ticket_input ''+7 (911) 234-56-78'') =
      Some \<lparr>has_error_message = True, textContent = NoText, shown = False\<rparr>"
    by (simp add: ticket_input_def set_ticket_pattern_def text_input_def)
  have f: "fvalue (ticket_input ''+7 (911) 234-56-78'') = ''+7 (911) 234-56-78''"
    by (simp add: ticket_input_def set_ticket_pattern_def text_input_def)
  have "validateTicket (ticket_input ''+7 (911) 234-56-78'') =
      validateField (ticket_input ''+7 (911) 234-56-78'') NoText"
    using n by (simp add: validateTicket_def Let_def f)
  with v s n show ?thesis
    by (simp add: validateField_def Let_def)
qed


section \<open>Properties of the form validation\<close>

lemma validateTicket_fst: "fst (validateTicket t) = validity_valid t"
  by (simp add: validateTicket_def validateField_def Let_def)

lemma validate_items_result:
  "list_all (\<lambda>item. desc item \<noteq> None \<and> eval_field item \<noteq> None) its \<Longrightarrow>
   \<exists>its'. validate_items idx its (v, errs) =
     Inr (its', v \<and> list_all item_passes its, errs @ failing_items idx its)"
proof (induction its arbitrary: idx v errs)
  case Nil
  then show ?case by simp
next
  case (Cons item rest)
  from Cons.prems obtain d e where de: "desc item = Some d" "eval_field item = Some e"
    by auto
  from Cons.prems have r: "list_all (\<lambda>item. desc item \<noteq> None \<and> eval_field item \<noteq> None) rest"
    by simp
  define v2 where "v2 = (v \<and> fvalue d \<noteq> [] \<and> fvalue e \<noteq> [])"
  define errs2 where "errs2 = errs @ (if fvalue d = [] then [Desc idx] else []) @
      (if fvalue e = [] then [Eval idx] else [])"
  from Cons.IH [OF r, of "Suc idx" v2 errs2] obtain rest' where
    rest': "validate_items (Suc idx) rest (v2, errs2) =
      Inr (rest', v2 \<and> list_all item_passes rest, errs2 @ failing_items (Suc idx) rest)"
    by blast
  have ip: "item_passes item = (fvalue d \<noteq> [] \<and> fvalue e \<noteq> [])"
    using de by (simp add: item_passes_def has_value_def)
  show ?case
    using de rest'
    by (cases "fvalue d = []"; cases "fvalue e = []")
       (simp_all add: ip has_value_def Let_def v2_def errs2_def)
qed

lemma failing_items_empty: "(failing_items idx its = []) = list_all item_passes its"
  by (induction its arbitrary: idx) (auto simp: item_passes_def)

lemma failing_fields_empty: "(failing_fields doc = []) = form_passes doc"
  by (auto simp: failing_fields_def form_passes_def failing_items_empty)

text \<open>
  Claim C8, as the code has it. When the elements it looks up are there,
  validateForm returns true if and only if the department and the issue field
  have a value, the ticket field passes validateTicket, and every item has a
  description and an evaluation that are not empty; nothing asks whether the
  evaluation is numeric. When it returns false, the element scrolled into view
  and focused is the first failing field in the order department, issue,
  ticket, then the items in document order, description before evaluation.
\<close>

theorem validateForm_result:
  assumes "elements_present doc"
  shows "(\<exists>doc'. validateForm doc =
            Inr (form_passes doc,
                 (if form_passes doc then None else Some (hd (failing_fields doc))),
                 doc')) \<and>
         (form_passes doc \<or> failing_fields doc \<noteq> [])"
proof -
  from assms obtain dept iss tick where
    el: "department doc = Some dept" "issue doc = Some iss" "ticket doc = Some tick"
    and its: "list_all (\<lambda>item. desc item \<noteq> None \<and> eval_field item \<noteq> None) (items doc)"
    by (auto simp: elements_present_def)
  define v3 where "v3 = (fvalue dept \<noteq> [] \<and> fvalue iss \<noteq> [] \<and> validity_valid tick)"
  define errs3 where "errs3 = (if fvalue dept = [] then [Department] else []) @
      (if fvalue iss = [] then [Issue] else []) @
      (if validity_valid tick then [] else [Ticket])"
  from validate_items_result [OF its, of 0 v3 errs3] obtain items' where
    items': "validate_items 0 (items doc) (v3, errs3) =
      Inr (items', v3 \<and> list_all item_passes (items doc), errs3 @ failing_items 0 (items doc))"
    by blast
  have fp: "form_passes doc = (v3 \<and> list_all item_passes (items doc))"
    using el by (simp add: form_passes_def has_value_def ticket_passes_def v3_def)
  have ff: "failing_fields doc = errs3 @ failing_items 0 (items doc)"
    using el by (simp add: failing_fields_def has_value_def ticket_passes_def errs3_def)
  have fe: "(errs3 @ failing_items 0 (items doc) = []) = form_passes doc"
    using failing_fields_empty [of doc] ff by simp
  obtain tick' where tk: "validateTicket tick = (validity_valid tick, tick')"
    using validateTicket_fst [of tick] by (cases "validateTicket tick") simp
  have "\<exists>doc'. validateForm doc =
            Inr (form_passes doc,
                 (if form_passes doc then None else Some (hd (failing_fields doc))),
                 doc')"
    unfolding validateForm_def
    using el items' fp ff fe
    by (cases "fvalue dept = []"; cases "fvalue iss = []"; cases "validity_valid tick")
       (simp_all add: Let_def v3_def errs3_def tk)
  moreover have "form_passes doc \<or> failing_fields doc \<noteq> []"
    using failing_fields_empty [of doc] by blast
  ultimately show ?thesis by blast
qed

theorem validateForm_result_witness:
  "elements_present (example_form ''ring'' []) \<and>
   \<not> form_passes (example_form ''ring'' []) \<and>
   (\<exists>doc'. validateForm (example_form ''ring'' []) = Inr (False, Some (Eval 0), doc'))"
proof -
  have p: "elements_present (example_form ''ring'' [])"
    by (simp add: elements_present_def example_form_def)
  have n: "\<not> form_passes (example_form ''ring'' [])"
    by (simp add: form_passes_def item_passes_def has_value_def example_form_def
        text_input_def)
  have t: "ticket_passes (Some (ticket_input ''12345678901''))"
    by (simp add: ticket_passes_def validity_valid_def ticket_input_def
        set_ticket_pattern_def text_input_def is_digit_def)
  have f: "failing_fields (example_form ''ring'' []) = [Eval 0]"
    using t by (simp add: failing_fields_def has_value_def example_form_def text_input_def)
  from validateForm_result [OF p] n f p show ?thesis
    by simp
qed

text \<open>
  Claim C8 as the specification states it fails: with the evaluation "abc",
  which holds no digit, validateForm returns true and changes nothing.
\<close>

theorem validateForm_accepts_non_numeric_evaluation:
  "validateForm (example_form ''ring'' ''abc'') = Inr (True, None, example_form ''ring'' ''abc'') \<and>
   \<not> form_passes_numeric (example_form ''ring'' ''abc'')"
proof -
  have t: "validateTicket (ticket_input ''12345678901'') = (True, ticket_input ''12345678901'')"
    by (simp add: validateTicket_def validateField_def validity_valid_def ticket_input_def
        set_ticket_pattern_def text_input_def strip_non_digits_def is_digit_def Let_def)
  have v: "validateForm (example_form ''ring'' ''abc'') =
      Inr (True, None, example_form ''ring'' ''abc'')"
    unfolding validateForm_def example_form_def
    by (simp add: t Let_def) (simp add: text_input_def)
  have n: "\<not> form_passes_numeric (example_form ''ring'' ''abc'')"
    by (simp add: form_passes_numeric_def item_passes_numeric_def is_numeric_def
        example_form_def text_input_def strip_non_digits_def is_digit_def)
  from v n show ?thesis by simp
qed


section \<open>Properties of the cache storage\<close>

lemma map_of_cache_put:
  "map_of (cache_put u r c) x = (if x = u then Some r else map_of c x)"
  by (induction c) (auto simp: cache_put_def)

lemma fetch_all_Inr:
  "fetch_all net us = Inr rs \<Longrightarrow>
   map fst rs = us \<and>
   list_all (\<lambda>e. net (GET (fst e)) = Some (snd e) \<and> \<not> precache_rejected (snd e)) rs"
  by (induction us arbitrary: rs) (auto split: option.splits if_splits sum.splits)

lemma fetch_all_Inl:
  "(fetch_all net us = Inl TypeError) = (\<exists>u \<in> set us. asset_fails net u)"
  by (induction us) (auto simp: asset_fails_def split: option.splits sum.splits)

lemma fetch_all_error: "fetch_all net us = Inl e \<Longrightarrow> e = TypeError"
  by (induction us arbitrary: e) (auto split: option.splits sum.splits if_splits)

lemma map_of_fold_put:
  "list_all (\<lambda>e. net (GET (fst e)) = Some (snd e) \<and> \<not> precache_rejected (snd e)) rs \<Longrightarrow>
   map_of (fold (\<lambda>e. cache_put (fst e) (snd e)) rs c) x =
     (if x \<in> set (map fst rs) then net (GET x) else map_of c x)"
  by (induction rs arbitrary: c) (auto simp: map_of_cache_put)

lemma cache_addAll_Inr:
  assumes "cache_addAll net us c = Inr c'"
  shows "map_of c' x = (if x \<in> set us then net (GET x) else map_of c x)"
proof -
  from assms obtain rs where rs: "fetch_all net us = Inr rs"
    and c': "c' = fold (\<lambda>e. cache_put (fst e) (snd e)) rs c"
    by (auto simp: cache_addAll_def split: sum.splits)
  from fetch_all_Inr [OF rs] map_of_fold_put [of net rs c x] c' show ?thesis
    by auto
qed

lemma cache_addAll_fetched:
  assumes "cache_addAll net us c = Inr c'" "x \<in> set us"
  shows "\<exists>r. net (GET x) = Some r \<and> response_ok r"
proof -
  from assms obtain rs where rs: "fetch_all net us = Inr rs"
    by (auto simp: cache_addAll_def split: sum.splits)
  from fetch_all_Inr [OF rs] assms(2) show ?thesis
    by (fastforce simp: list_all_iff precache_rejected_def)
qed

lemma fold_delete_others:
  "fold (\<lambda>cacheName s. if cacheName \<noteq> C then caches_delete cacheName s else s) ns st =
   filter (\<lambda>e. fst e = C \<or> fst e \<notin> set ns) st"
  by (induction ns arbitrary: st) (auto simp: caches_delete_def intro: filter_cong)

lemma activate_listener_filter:
  "activate_listener v st = filter (\<lambda>e. fst e = CACHE_NAME v) st"
  unfolding activate_listener_def fold_delete_others caches_keys_def
  by (rule filter_cong) auto

lemma filter_distinct_key:
  "distinct (map fst st) \<Longrightarrow> map_of st k = Some c \<Longrightarrow> filter (\<lambda>e. fst e = k) st = [(k, c)]"
proof (induction st)
  case Nil
  then show ?case by simp
next
  case (Cons e st)
  show ?case
  proof (cases "fst e = k")
    case True
    with Cons.prems have "e = (k, c)" by (cases e) simp
    moreover from True Cons.prems(1) have "k \<notin> fst ` set st"
      by simp
    then have "filter (\<lambda>e. fst e = k) st = []"
      by (auto simp: filter_empty_conv)
    ultimately show ?thesis by simp
  next
    case False
    with Cons show ?thesis by (cases e) auto
  qed
qed

lemma keys_caches_open: "distinct (caches_keys st) \<Longrightarrow> distinct (caches_keys (caches_open n st))"
  by (simp add: caches_open_def caches_keys_def)

lemma keys_set_cache: "caches_keys (set_cache n c st) = caches_keys st"
  by (induction st) (auto simp: set_cache_def caches_keys_def)

lemma map_of_set_cache:
  "map_of (set_cache n c st) k = (if k = n \<and> n \<in> set (caches_keys st) then Some c else map_of st k)"
  by (induction st) (force simp: set_cache_def caches_keys_def)+

lemma open_has_key: "n \<in> set (caches_keys (caches_open n st))"
  by (simp add: caches_open_def caches_keys_def)

lemma caches_match_open: "caches_match req (caches_open n st) = caches_match req st"
proof -
  have "caches_match req (st @ [(n, [])]) = caches_match req st"
    by (induction st) (auto simp: cache_match_def split: option.splits)
  then show ?thesis by (simp add: caches_open_def)
qed

lemma cache_of_open: "cache_of k (caches_open n st) = cache_of k st"
  by (force simp: cache_of_def caches_open_def caches_keys_def
      split: option.splits if_splits dest: map_of_SomeD)

lemma install_listener_failure:
  assumes "u \<in> set (urlsToCache p)" and "asset_fails net u"
  shows "install_listener v p net st = (Inl TypeError, caches_open (CACHE_NAME v) st)"
proof -
  from assms have "fetch_all net (urlsToCache p) = Inl TypeError"
    unfolding fetch_all_Inl by blast
  then show ?thesis
    by (simp add: install_listener_def cache_addAll_def Let_def)
qed

lemma install_listener_fails_iff:
  "(fst (install_listener v p net st) = Inl TypeError) =
     (\<exists>u \<in> set (urlsToCache p). asset_fails net u)"
proof -
  have "(fst (install_listener v p net st) = Inl TypeError) =
          (fetch_all net (urlsToCache p) = Inl TypeError)"
    by (auto simp: install_listener_def cache_addAll_def Let_def split: sum.splits
        dest: fetch_all_error)
  then show ?thesis by (simp add: fetch_all_Inl)
qed

lemma install_listener_success:
  assumes wf: "distinct (caches_keys st)"
    and ok: "fst (install_listener v p net st) = Inr ()"
  shows "\<exists>c. install_listener v p net st =
            (Inr (), set_cache (CACHE_NAME v) c (caches_open (CACHE_NAME v) st)) \<and>
          (\<forall>x. map_of c x = (if x \<in> set (urlsToCache p) then net (GET x)
                  else map_of (cache_of (CACHE_NAME v) st) x)) \<and>
          (\<forall>x \<in> set (urlsToCache p). \<exists>r. net (GET x) = Some r \<and> response_ok r)"
proof -
  let ?st1 = "caches_open (CACHE_NAME v) st"
  from ok obtain c where
    c: "cache_addAll net (urlsToCache p) (cache_of (CACHE_NAME v) ?st1) = Inr c"
    by (auto simp: install_listener_def Let_def split: sum.splits)
  then have i: "install_listener v p net st = (Inr (), set_cache (CACHE_NAME v) c ?st1)"
    by (simp add: install_listener_def Let_def)
  from cache_addAll_Inr [OF c] cache_addAll_fetched [OF c] i show ?thesis
    by (auto simp: cache_of_open)
qed

lemma activate_after_install:
  assumes wf: "distinct (caches_keys st)"
  shows "activate_listener v (set_cache (CACHE_NAME v) c (caches_open (CACHE_NAME v) st)) =
           [(CACHE_NAME v, c)]"
proof -
  let ?st2 = "set_cache (CACHE_NAME v) c (caches_open (CACHE_NAME v) st)"
  have d: "distinct (map fst ?st2)"
    using keys_caches_open [OF wf, of "CACHE_NAME v"] keys_set_cache [of "CACHE_NAME v" c]
    by (simp add: caches_keys_def)
  have m: "map_of ?st2 (CACHE_NAME v) = Some c"
    by (simp add: map_of_set_cache open_has_key)
  from filter_distinct_key [OF d m] show ?thesis
    by (simp add: activate_listener_filter)
qed

text \<open>
  Claim C4. The activate listener deletes every cache whose name is not the
  current cache name and keeps the others. When the cache names are distinct
  and version v2 has been installed, the worker is activated and exactly one
  cache exists afterwards, the one of v2; the cache of any other version v1 is
  gone; and a fetch of a precached path is answered from the cache of v2, with
  the response that the install stored, whatever the network is by then.
\<close>

theorem activation_leaves_current_cache_only:
  assumes wf: "distinct (caches_keys (caches w))"
    and ok: "fst (install_listener v2 p net (caches w)) = Inr ()"
  shows "caches_keys (activate_listener v st) =
           filter (\<lambda>name. name = CACHE_NAME v) (caches_keys st) \<and>
         active (deploy v2 p net w) = Some v2 \<and>
         caches_keys (caches (deploy v2 p net w)) = [CACHE_NAME v2] \<and>
         (v1 \<noteq> v2 \<longrightarrow> CACHE_NAME v1 \<notin> set (caches_keys (caches (deploy v2 p net w)))) \<and>
         (\<forall>u \<in> set (urlsToCache p). \<exists>r.
            net (GET u) = Some r \<and>
            cache_match (GET u) (cache_of (CACHE_NAME v2) (caches (deploy v2 p net w))) = Some r \<and>
            fetch_listener (caches (deploy v2 p net w)) net_later (GET u)
              = (Inr r, caches (deploy v2 p net w)))"
proof -
  have k: "caches_keys (activate_listener v st) =
           filter (\<lambda>name. name = CACHE_NAME v) (caches_keys st)"
    by (simp add: activate_listener_filter caches_keys_def filter_map comp_def)
  from install_listener_success [OF wf ok] obtain c where
    i: "install_listener v2 p net (caches w) =
          (Inr (), set_cache (CACHE_NAME v2) c (caches_open (CACHE_NAME v2) (caches w)))"
    and m: "\<And>x. map_of c x = (if x \<in> set (urlsToCache p) then net (GET x)
                  else map_of (cache_of (CACHE_NAME v2) (caches w)) x)"
    and f: "\<And>x. x \<in> set (urlsToCache p) \<Longrightarrow> \<exists>r. net (GET x) = Some r \<and> response_ok r"
    by blast
  have d: "deploy v2 p net w = \<lparr>caches = [(CACHE_NAME v2, c)], active = Some v2\<rparr>"
    by (simp add: deploy_def i activate_after_install [OF wf])
  have n: "v1 \<noteq> v2 \<longrightarrow> CACHE_NAME v1 \<noteq> CACHE_NAME v2"
    by (simp add: CACHE_NAME_def)
  have s: "\<forall>u \<in> set (urlsToCache p). \<exists>r.
            net (GET u) = Some r \<and>
            cache_match (GET u) c = Some r \<and>
            fetch_listener [(CACHE_NAME v2, c)] net_later (GET u) = (Inr r, [(CACHE_NAME v2, c)])"
  proof
    fix u assume u: "u \<in> set (urlsToCache p)"
    from f [OF u] obtain r where r: "net (GET u) = Some r" by blast
    with m [of u] u have "cache_match (GET u) c = Some r"
      by (simp add: cache_match_def GET_def)
    with r show "\<exists>r. net (GET u) = Some r \<and> cache_match (GET u) c = Some r \<and>
            fetch_listener [(CACHE_NAME v2, c)] net_later (GET u) = (Inr r, [(CACHE_NAME v2, c)])"
      by (simp add: fetch_listener_def)
  qed
  have co: "cache_of (CACHE_NAME v2) [(CACHE_NAME v2, c)] = c"
    by (simp add: cache_of_def)
  from k d n s co show ?thesis
    by (simp add: caches_keys_def)
qed

text \<open>
  Claim C5. If one listed asset cannot be precached during the install (no
  answer, a status that is not ok, a partial answer with status 206, or a
  \<^verbatim>\<open>Vary\<close> header with \<^verbatim>\<open>*\<close>), the install fails with a TypeError, and
  it fails so in no other case; the new version is not activated and the
  active version stays what it was; no existing cache changes and the new
  version's cache receives no entry; and every fetch is answered as it was
  before the failed install.
\<close>

theorem failed_precache_fails_installation:
  assumes "u \<in> set (urlsToCache p)"
    and "asset_fails net u"
  shows "fst (install_listener v p net (caches w)) = Inl TypeError \<and>
         (fst (install_listener v p net st) = Inl TypeError) =
           (\<exists>x \<in> set (urlsToCache p). asset_fails net x) \<and>
         active (deploy v p net w) = active w \<and>
         caches (deploy v p net w) = caches_open (CACHE_NAME v) (caches w) \<and>
         cache_of name (caches (deploy v p net w)) = cache_of name (caches w) \<and>
         fst (fetch_listener (caches (deploy v p net w)) net_later req)
           = fst (fetch_listener (caches w) net_later req)"
  using assms install_listener_failure [of u p net v "caches w"]
    install_listener_fails_iff [of v p net st]
  by (simp add: deploy_def cache_of_open fetch_listener_def caches_match_open)




lemma urls_example: "urlsToCache ''/service-worker.js'' = [''/'', ''/index.html'']"
  by (simp add: urlsToCache_def BASE_PATH_def swPath_def)

lemma v1_active_eq:
  "v1_active = \<lparr>caches = [(''sklad-bot-v1'', [(''/'', page ''one''), (''/index.html'', page ''one'')])],
                 active = Some ''v1''\<rparr>"
  by (simp add: v1_active_def deploy_def install_listener_def activate_listener_def
      caches_open_def caches_keys_def caches_delete_def cache_of_def set_cache_def
      cache_addAll_def cache_put_def urls_example CACHE_NAME_def site_def GET_def
      page_def response_ok_def precache_rejected_def Let_def)


theorem activation_leaves_current_cache_only_witness:
  "caches_keys (caches v1_active) = [''sklad-bot-v1''] \<and>
   active v2_active = Some ''v2'' \<and>
   caches_keys (caches v2_active) = [''sklad-bot-v2''] \<and>
   fetch_listener (caches v2_active) offline (GET ''/index.html'')
     = (Inr (page ''two''), caches v2_active)"
proof -
  have k1: "caches_keys (caches v1_active) = [''sklad-bot-v1'']"
    by (simp add: v1_active_eq caches_keys_def)
  then have wf: "distinct (caches_keys (caches v1_active))"
    by simp
  have ok: "fst (install_listener ''v2'' ''/service-worker.js'' (site ''two'') (caches v1_active))
              = Inr ()"
    by (simp add: v1_active_eq install_listener_def caches_open_def caches_keys_def
        cache_of_def set_cache_def cache_addAll_def urls_example CACHE_NAME_def site_def
        GET_def page_def response_ok_def precache_rejected_def Let_def)
  note t = activation_leaves_current_cache_only [OF wf ok,
      where net_later = offline and ?v1.0 = "''v1''" and v = "''v2''" and st = "[]"]
  from t have a: "active v2_active = Some ''v2''"
    and k2: "caches_keys (caches v2_active) = [''sklad-bot-v2'']"
    by (simp_all add: v2_active_def CACHE_NAME_def)
  from t have "\<forall>u \<in> set (urlsToCache ''/service-worker.js''). \<exists>r.
      site ''two'' (GET u) = Some r \<and>
      fetch_listener (caches v2_active) offline (GET u) = (Inr r, caches v2_active)"
    unfolding v2_active_def by blast
  then have "\<exists>r. site ''two'' (GET ''/index.html'') = Some r \<and>
      fetch_listener (caches v2_active) offline (GET ''/index.html'') = (Inr r, caches v2_active)"
    by (simp add: urls_example)
  then have f: "fetch_listener (caches v2_active) offline (GET ''/index.html'')
     = (Inr (page ''two''), caches v2_active)"
    by (auto simp: site_def GET_def)
  from k1 a k2 f show ?thesis by simp
qed


theorem failed_precache_fails_installation_witness:
  "asset_fails (site_without_index ''two'') ''/index.html'' \<and>
   asset_fails (site_partial_index ''two'') ''/index.html'' \<and>
   active v1_active = Some ''v1'' \<and>
   active v2_failed = Some ''v1'' \<and>
   active (deploy ''v2'' ''/service-worker.js'' (site_partial_index ''two'') v1_active)
     = Some ''v1'' \<and>
   caches v2_failed = caches v1_active @ [(''sklad-bot-v2'', [])] \<and>
   fst (fetch_listener (caches v2_failed) offline (GET ''/index.html'')) = Inr (page ''one'')"
proof -
  have u: "''/index.html'' \<in> set (urlsToCache ''/service-worker.js'')"
    by (simp add: urls_example)
  have n: "asset_fails (site_without_index ''two'') ''/index.html''"
    by (simp add: asset_fails_def site_without_index_def GET_def precache_rejected_def
        response_ok_def)
  have m: "asset_fails (site_partial_index ''two'') ''/index.html''"
    by (simp add: asset_fails_def site_partial_index_def GET_def precache_rejected_def)
  have a1: "active v1_active = Some ''v1''"
    by (simp add: v1_active_eq)
  have o: "caches_open (CACHE_NAME ''v2'') (caches v1_active)
      = caches v1_active @ [(''sklad-bot-v2'', [])]"
    by (simp add: v1_active_eq caches_open_def caches_keys_def CACHE_NAME_def)
  have f: "fst (fetch_listener (caches v1_active) offline (GET ''/index.html''))
      = Inr (page ''one'')"
    by (simp add: v1_active_eq fetch_listener_def cache_match_def GET_def)
  from u n have t: "active v2_failed = active v1_active \<and>
      caches v2_failed = caches_open (CACHE_NAME ''v2'') (caches v1_active) \<and>
      fst (fetch_listener (caches v2_failed) offline (GET ''/index.html''))
        = fst (fetch_listener (caches v1_active) offline (GET ''/index.html''))"
    unfolding v2_failed_def
    using failed_precache_fails_installation [where u = "''/index.html''"
        and p = "''/service-worker.js''" and net = "site_without_index ''two''"
        and v = "''v2''" and w = v1_active and net_later = offline
        and req = "GET ''/index.html''" and name = "''sklad-bot-v1''" and st = "[]"]
    by blast
  from u m have t2:
    "active (deploy ''v2'' ''/service-worker.js'' (site_partial_index ''two'') v1_active)
       = active v1_active"
    using failed_precache_fails_installation [where u = "''/index.html''"
        and p = "''/service-worker.js''" and net = "site_partial_index ''two''"
        and v = "''v2''" and w = v1_active and net_later = offline
        and req = "GET ''/index.html''" and name = "''sklad-bot-v1''" and st = "[]"]
    by blast
  from t a1 have x1: "active v2_failed = Some ''v1''"
    by simp
  from t2 a1 have x1':
    "active (deploy ''v2'' ''/service-worker.js'' (site_partial_index ''two'') v1_active)
       = Some ''v1''"
    by simp
  from t o have x2: "caches v2_failed = caches v1_active @ [(''sklad-bot-v2'', [])]"
    by simp
  from t have "fst (fetch_listener (caches v2_failed) offline (GET ''/index.html''))
       = fst (fetch_listener (caches v1_active) offline (GET ''/index.html''))"
    by blast
  also note f
  finally have x3:
    "fst (fetch_listener (caches v2_failed) offline (GET ''/index.html'')) = Inr (page ''one'')" .
  from n m a1 x1 x1' x2 x3 show ?thesis by blast
qed




section \<open>Properties of the background sync\<close>

text \<open>
  Claim C7, as the code has it. sendReport succeeds if and only if the request
  is answered, the status is from 200 to 299 and the body parses as JSON, and
  then it returns the parsed body. It raises when the transport fails, when
  the status is outside that range, and when the body of an ok response is not
  JSON.
\<close>

theorem sendReport_outcome:
  "fst (sendReport srv w data) =
     (case fst (srv w (generate_request data)) of
        None \<Rightarrow> Inl TypeError
      | Some r \<Rightarrow>
          if 200 \<le> status r \<and> status r \<le> 299
          then (case json_body r of None \<Rightarrow> Inl SyntaxError | Some j \<Rightarrow> Inr j)
          else Inl FailedToSendReport) \<and>
   (\<exists>j. fst (sendReport srv w data) = Inr j) =
     (\<exists>r. fst (srv w (generate_request data)) = Some r \<and>
          200 \<le> status r \<and> status r \<le> 299 \<and> json_body r \<noteq> None)"
  by (cases "srv w (generate_request data)")
     (auto simp: sendReport_def response_ok_def split: option.splits)

text \<open>
  Claim C7 as the specification states it fails: the endpoint answers 204 with
  an empty body, a status in the range 200 to 299 and no transport failure, and
  sendReport raises.
\<close>

theorem sendReport_rejects_ok_response_without_json:
  "fst (no_content () (generate_request (JString ''report'')))
     = Some \<lparr>status = 204, body = [], json_body = None, vary_star = False\<rparr> \<and>
   response_ok \<lparr>status = 204, body = [], json_body = None, vary_star = False\<rparr> \<and>
   fst (sendReport no_content () (JString ''report'')) = Inl SyntaxError"
  by (simp add: sendReport_def no_content_def response_ok_def)

text \<open>
  Whatever the store holds, \<^verbatim>\<open>syncPendingReports\<close> rejects and changes nothing.
\<close>

lemma syncPendingReports_never_delivers:
  "snd (syncPendingReports srv wd) = wd \<and>
   fst (syncPendingReports srv wd) =
     (case database wd of None \<Rightarrow> Inl OpenFailed | Some store \<Rightarrow> Inl TypeError)"
  by (simp add: syncPendingReports_def openDB_def store_getAll_def await_def for_of_def
      split: option.splits)

text \<open>
  Claim C1, at the input of the specification's own example: three queued
  reports and an endpoint that would fail the second delivery. The sync stops
  with a TypeError at the loop header, before any delivery: the endpoint is
  never asked, and all three reports are still queued.
\<close>

theorem sync_of_three_reports_delivers_none:
  "database three_queued = Some three_reports \<and>
   sync_listener ''sync-reports'' fails_second three_queued = (Inl TypeError, three_queued)"
  by (simp add: sync_listener_def syncPendingReports_def openDB_def store_getAll_def
      await_def for_of_def three_queued_def)

text \<open>
  The loop by itself, had it been given the records: each record is tried once,
  in order; a record whose delivery succeeds is deleted, one whose delivery
  fails stays, and the loop goes on.
\<close>

lemma sync_loop_result:
  "\<exists>new. attempts (sync_loop srv its wd) = attempts wd @ new \<and>
         map fst new = map item_id its \<and>
         database (sync_loop srv its wd) =
           map_option (filter (\<lambda>i. (item_id i, True) \<notin> set new)) (database wd)"
proof (induction its arbitrary: wd)
  case Nil
  show ?case by (cases "database wd") simp_all
next
  case (Cons item rest)
  obtain res w' where s: "sendReport srv (server_state wd) (item_data item) = (res, w')"
    by (cases "sendReport srv (server_state wd) (item_data item)")
  show ?case
  proof (cases res)
    case (Inl e)
    let ?wd1 = "wd\<lparr>server_state := w', attempts := attempts wd @ [(item_id item, False)]\<rparr>"
    from Cons.IH [of ?wd1] obtain new where
      n: "attempts (sync_loop srv rest ?wd1) = attempts ?wd1 @ new"
         "map fst new = map item_id rest"
         "database (sync_loop srv rest ?wd1) =
            map_option (filter (\<lambda>i. (item_id i, True) \<notin> set new)) (database ?wd1)"
      by blast
    have "sync_loop srv (item # rest) wd = sync_loop srv rest ?wd1"
      using s Inl by simp
    with n show ?thesis
      by (intro exI [of _ "(item_id item, False) # new"]) simp
  next
    case (Inr j)
    let ?wd1 = "wd\<lparr>server_state := w',
                    database := map_option (store_delete (item_id item)) (database wd),
                    attempts := attempts wd @ [(item_id item, True)]\<rparr>"
    from Cons.IH [of ?wd1] obtain new where
      n: "attempts (sync_loop srv rest ?wd1) = attempts ?wd1 @ new"
         "map fst new = map item_id rest"
         "database (sync_loop srv rest ?wd1) =
            map_option (filter (\<lambda>i. (item_id i, True) \<notin> set new)) (database ?wd1)"
      by blast
    have "sync_loop srv (item # rest) wd = sync_loop srv rest ?wd1"
      using s Inr by simp
    with n show ?thesis
      by (intro exI [of _ "(item_id item, True) # new"])
         (auto simp: option.map_comp comp_def store_delete_def intro!: option.map_cong filter_cong)
  qed
qed

lemma sync_loop_three_reports:
  "sync_loop fails_second three_reports three_queued =
     \<lparr>server_state = 3,
      database = Some [\<lparr>item_id = 2, item_data = JString ''second''\<rparr>],
      attempts = [(1, True), (2, False), (3, True)]\<rparr>"
  by (simp add: three_reports_def three_queued_def sendReport_def fails_second_def
      accepted_def response_ok_def generate_request_def store_delete_def)

end
